theory Spec2Isabelle
  imports Main "HOL-Library.Word"
begin

unbundle bit_operations_syntax

section \<open>The YX packet protocol layer\<close>

text \<open>
  A shallow embedding of the Python package \<open>yx\<close>: \<open>primitives/guid_factory.py\<close>,
  \<open>primitives/data_crypto.py\<close>, \<open>transport/packet.py\<close> and
  \<open>transport/packet_builder.py\<close>. A Python \<open>bytes\<close> object is a list of 8-bit words,
  a \<open>str\<close> is a \<open>string\<close> (one \<open>char\<close> per code point below 256), a Python
  \<open>int\<close> is an \<open>int\<close>. A function that can raise returns \<open>error + 'a\<close>, with
  \<open>Inl\<close> for the exception.
\<close>

type_synonym byte = "8 word"
type_synonym bytes = "byte list"
type_synonym w32 = "32 word"

subsection \<open>Exceptions\<close>

text \<open>
  The message of an exception, one constructor per \<open>raise\<close> site, with the number the
  source formats into the text:
  \<^item> \<open>Key_must_be_32_bytes n\<close>: \<^verbatim>\<open>Key must be 32 bytes, got {len(key)}\<close>
  \<^item> \<open>Cannot_truncate n\<close>: \<^verbatim>\<open>Cannot truncate to more than 32 bytes, got {truncate_to}\<close>
  \<^item> \<open>GUID_must_be_6_bytes n\<close>: \<^verbatim>\<open>GUID must be 6 bytes, got {len(guid)}\<close> (data_crypto.py)
  \<^item> \<open>hmac_must_be_16_bytes n\<close>: \<^verbatim>\<open>hmac must be 16 bytes, got {len(self.hmac)}\<close> (packet.py)
  \<^item> \<open>guid_must_be_6_bytes n\<close>: \<^verbatim>\<open>guid must be 6 bytes, got {len(self.guid)}\<close> (packet.py)
  \<^item> \<open>Non_hexadecimal i\<close>: \<^verbatim>\<open>non-hexadecimal number found in fromhex() arg at position i\<close>
  \<^item> \<open>Odd_hex_digits\<close>: \<^verbatim>\<open>fromhex() arg must contain an even number of hexadecimal digits\<close>
\<close>

datatype message =
    Key_must_be_32_bytes nat
  | Cannot_truncate int
  | GUID_must_be_6_bytes nat
  | hmac_must_be_16_bytes nat
  | guid_must_be_6_bytes nat
  | Non_hexadecimal nat
  | Odd_hex_digits

datatype error = ValueError message | TypeError message

text \<open>The handler \<^verbatim>\<open>except (ValueError, TypeError)\<close> (in either order).\<close>

fun except_ValueError_TypeError :: "error \<Rightarrow> bool" where
  "except_ValueError_TypeError (ValueError _) = True"
| "except_ValueError_TypeError (TypeError _) = True"

subsection \<open>Python built-ins the package calls\<close>

text \<open>
  Slices with literal bounds \<^verbatim>\<open>xs[i:j]\<close> (\<open>0 \<le> i \<le> j\<close>) clamp to the length and never
  raise. \<^verbatim>\<open>xs[:n]\<close> with an \<open>int\<close> \<open>n\<close> counts a negative \<open>n\<close> from the end.
\<close>

definition slice :: "nat \<Rightarrow> nat \<Rightarrow> 'a list \<Rightarrow> 'a list" where
  "slice i j xs = drop i (take j xs)"

definition slice_to :: "int \<Rightarrow> 'a list \<Rightarrow> 'a list" where
  "slice_to n xs = (if n < 0 then take (nat (int (length xs) + n)) xs else take (nat n) xs)"

text \<open>
  \<^verbatim>\<open>bytes.fromhex\<close> (CPython 3.7 and later). A string with a non-ASCII character is
  refused at the first such character. Otherwise the loop skips ASCII whitespace before
  each pair of hexadecimal digits (either case) and reads the pair; whitespace inside a
  pair, or any other character, is refused at its position, and a single digit at the end
  of the string is refused as an odd number of digits.
\<close>

definition Py_ISSPACE :: "char \<Rightarrow> bool" where
  "Py_ISSPACE c = (c \<in> set [CHR 0x09, CHR 0x0A, CHR 0x0B, CHR 0x0C, CHR 0x0D, CHR 0x20])"

definition digit_value :: "char \<Rightarrow> nat" where
  "digit_value c =
     (let n = (of_char c :: nat) in
      if 48 \<le> n \<and> n \<le> 57 then n - 48
      else if 97 \<le> n \<and> n \<le> 122 then n - 87
      else if 65 \<le> n \<and> n \<le> 90 then n - 55
      else 37)"

fun fromhex_loop :: "nat \<Rightarrow> string \<Rightarrow> error + bytes" where
  "fromhex_loop i [] = Inr []"
| "fromhex_loop i (c # cs) =
     (if Py_ISSPACE c then fromhex_loop (Suc i) cs
      else if 16 \<le> digit_value c then Inl (ValueError (Non_hexadecimal i))
      else (case cs of
              [] \<Rightarrow> Inl (ValueError Odd_hex_digits)
            | d # ds \<Rightarrow>
                if 16 \<le> digit_value d then Inl (ValueError (Non_hexadecimal (Suc i)))
                else (case fromhex_loop (i + 2) ds of
                        Inl e \<Rightarrow> Inl e
                      | Inr bs \<Rightarrow> Inr (of_nat (16 * digit_value c + digit_value d) # bs))))"

definition is_ascii :: "char \<Rightarrow> bool" where
  "is_ascii c = ((of_char c :: nat) < 128)"

definition bytes_fromhex :: "string \<Rightarrow> error + bytes" where
  "bytes_fromhex s =
     (if list_all is_ascii s then fromhex_loop 0 s
      else Inl (ValueError (Non_hexadecimal (length (takeWhile is_ascii s)))))"

text \<open>\<^verbatim>\<open>bytes.hex\<close>: two lower-case hexadecimal digits per byte, high nibble first.\<close>

definition hexdigit :: "nat \<Rightarrow> char" where
  "hexdigit n = ''0123456789abcdef'' ! n"

definition bytes_hex :: "bytes \<Rightarrow> string" where
  "bytes_hex bs = concat (map (\<lambda>b. [hexdigit (unat b div 16), hexdigit (unat b mod 16)]) bs)"

text \<open>
  \<^verbatim>\<open>hmac.compare_digest\<close> on two \<open>bytes\<close> objects: when the lengths differ the second
  argument is compared with itself and the result starts at 1; the loop ORs the XOR of
  every pair of bytes into the result, and the answer is whether the result is 0.
\<close>

definition compare_digest :: "bytes \<Rightarrow> bytes \<Rightarrow> bool" where
  "compare_digest a b =
     (let left = (if length a = length b then a else b);
          result = (if length a = length b then 0 else 1 :: byte)
      in foldl (\<lambda>r (x, y). r OR (x XOR y)) result (zip left b) = 0)"

subsection \<open>HMAC-SHA256 of the \<open>cryptography\<close> library\<close>

text \<open>
  \<^verbatim>\<open>hmac.HMAC(key, hashes.SHA256())\<close>, \<^verbatim>\<open>update\<close>, \<^verbatim>\<open>finalize\<close>: SHA-256 as in
  FIPS 180-4 on 32-bit words, and HMAC as in RFC 2104 with a block of 64 bytes.
\<close>

definition Ch :: "w32 \<Rightarrow> w32 \<Rightarrow> w32 \<Rightarrow> w32" where
  "Ch x y z = (x AND y) XOR (NOT x AND z)"

definition Maj :: "w32 \<Rightarrow> w32 \<Rightarrow> w32 \<Rightarrow> w32" where
  "Maj x y z = (x AND y) XOR (x AND z) XOR (y AND z)"

definition big_sigma0 :: "w32 \<Rightarrow> w32" where
  "big_sigma0 x = word_rotr 2 x XOR word_rotr 13 x XOR word_rotr 22 x"

definition big_sigma1 :: "w32 \<Rightarrow> w32" where
  "big_sigma1 x = word_rotr 6 x XOR word_rotr 11 x XOR word_rotr 25 x"

definition small_sigma0 :: "w32 \<Rightarrow> w32" where
  "small_sigma0 x = word_rotr 7 x XOR word_rotr 18 x XOR drop_bit 3 x"

definition small_sigma1 :: "w32 \<Rightarrow> w32" where
  "small_sigma1 x = word_rotr 17 x XOR word_rotr 19 x XOR drop_bit 10 x"

definition sha256_K :: "w32 list" where
  "sha256_K = [
    1116352408, 1899447441, 3049323471, 3921009573, 961987163, 1508970993, 2453635748, 2870763221,
    3624381080, 310598401, 607225278, 1426881987, 1925078388, 2162078206, 2614888103, 3248222580,
    3835390401, 4022224774, 264347078, 604807628, 770255983, 1249150122, 1555081692, 1996064986,
    2554220882, 2821834349, 2952996808, 3210313671, 3336571891, 3584528711, 113926993, 338241895,
    666307205, 773529912, 1294757372, 1396182291, 1695183700, 1986661051, 2177026350, 2456956037,
    2730485921, 2820302411, 3259730800, 3345764771, 3516065817, 3600352804, 4094571909, 275423344,
    430227734, 506948616, 659060556, 883997877, 958139571, 1322822218, 1537002063, 1747873779,
    1955562222, 2024104815, 2227730452, 2361852424, 2428436474, 2756734187, 3204031479, 3329325298]"

type_synonym sha_state = "w32 \<times> w32 \<times> w32 \<times> w32 \<times> w32 \<times> w32 \<times> w32 \<times> w32"

definition sha256_H0 :: sha_state where
  "sha256_H0 = (1779033703, 3144134277, 1013904242, 2773480762,
                1359893119, 2600822924, 528734635, 1541459225)"

fun be_word :: "bytes \<Rightarrow> w32" where
  "be_word [b0, b1, b2, b3] =
     push_bit 24 (ucast b0) OR push_bit 16 (ucast b1) OR push_bit 8 (ucast b2) OR ucast b3"
| "be_word _ = 0"

definition be_bytes :: "w32 \<Rightarrow> bytes" where
  "be_bytes w = [ucast (drop_bit 24 w), ucast (drop_bit 16 w), ucast (drop_bit 8 w), ucast w]"

definition be_length :: "nat \<Rightarrow> bytes" where
  "be_length n =
     (let w = (word_of_nat n :: 64 word)
      in map (\<lambda>i. ucast (drop_bit (8 * (7 - i)) w)) [0..<8])"

function chunks :: "nat \<Rightarrow> 'a list \<Rightarrow> 'a list list" where
  "chunks n xs = (if n = 0 \<or> xs = [] then [] else take n xs # chunks n (drop n xs))"
  by pat_completeness auto
termination
  by (relation "measure (\<lambda>(n, xs). length xs)") auto

declare chunks.simps [simp del]

definition sha256_pad :: "bytes \<Rightarrow> bytes" where
  "sha256_pad m =
     m @ [128] @ replicate ((119 - length m mod 64) mod 64) 0 @ be_length (8 * length m)"

fun schedule :: "nat \<Rightarrow> w32 list \<Rightarrow> w32 list" where
  "schedule 0 w = w"
| "schedule (Suc n) w =
     (let t = length w
      in schedule n (w @ [small_sigma1 (w ! (t - 2)) + w ! (t - 7)
                          + small_sigma0 (w ! (t - 15)) + w ! (t - 16)]))"

fun sha256_round :: "sha_state \<Rightarrow> w32 \<times> w32 \<Rightarrow> sha_state" where
  "sha256_round (a, b, c, d, e, f, g, h) (k, w) =
     (let t1 = h + big_sigma1 e + Ch e f g + k + w;
          t2 = big_sigma0 a + Maj a b c
      in (t1 + t2, a, b, c, d + t1, e, f, g))"

fun add_state :: "sha_state \<Rightarrow> sha_state \<Rightarrow> sha_state" where
  "add_state (a, b, c, d, e, f, g, h) (a', b', c', d', e', f', g', h') =
     (a + a', b + b', c + c', d + d', e + e', f + f', g + g', h + h')"

definition sha256_compress :: "sha_state \<Rightarrow> bytes \<Rightarrow> sha_state" where
  "sha256_compress s block =
     (let w = schedule 48 (map be_word (chunks 4 block))
      in add_state s (foldl sha256_round s (zip sha256_K w)))"

fun state_bytes :: "sha_state \<Rightarrow> bytes" where
  "state_bytes (a, b, c, d, e, f, g, h) = concat (map be_bytes [a, b, c, d, e, f, g, h])"

definition sha256 :: "bytes \<Rightarrow> bytes" where
  "sha256 m = state_bytes (foldl sha256_compress sha256_H0 (chunks 64 (sha256_pad m)))"

definition hmac_sha256 :: "bytes \<Rightarrow> bytes \<Rightarrow> bytes" where
  "hmac_sha256 key msg =
     (let k0 = (if 64 < length key then sha256 key else key);
          k = k0 @ replicate (64 - length k0) 0
      in sha256 (map (\<lambda>b. b XOR 92) k @ sha256 (map (\<lambda>b. b XOR 54) k @ msg)))"

subsection \<open>guid_factory.py\<close>

definition pad_guid :: "bytes \<Rightarrow> bytes" where
  "pad_guid guid =
     (if length guid = 6 then guid
      else if length guid < 6 then guid @ replicate (6 - length guid) 0
      else take 6 guid)"

definition from_hex :: "string \<Rightarrow> error + bytes" where
  "from_hex hex_string =
     (case bytes_fromhex hex_string of
        Inl e \<Rightarrow> Inl e
      | Inr guid_bytes \<Rightarrow> Inr (pad_guid guid_bytes))"

definition to_hex :: "bytes \<Rightarrow> string" where
  "to_hex guid = bytes_hex guid"

subsection \<open>data_crypto.py\<close>

definition compute_hmac :: "bytes \<Rightarrow> bytes \<Rightarrow> int \<Rightarrow> error + bytes" where
  "compute_hmac data key truncate_to =
     (if length key \<noteq> 32 then Inl (ValueError (Key_must_be_32_bytes (length key)))
      else if 32 < truncate_to then Inl (ValueError (Cannot_truncate truncate_to))
      else Inr (slice_to truncate_to (hmac_sha256 key data)))"

definition validate_hmac_constant_time :: "bytes \<Rightarrow> bytes \<Rightarrow> bytes \<Rightarrow> int \<Rightarrow> error + bool" where
  "validate_hmac_constant_time data key expected_hmac truncate_to =
     (case compute_hmac data key truncate_to of
        Inr computed_hmac \<Rightarrow> Inr (compare_digest computed_hmac expected_hmac)
      | Inl e \<Rightarrow> if except_ValueError_TypeError e then Inr False else Inl e)"

definition compute_packet_hmac :: "bytes \<Rightarrow> bytes \<Rightarrow> bytes \<Rightarrow> error + bytes" where
  "compute_packet_hmac guid payload key =
     (if length guid \<noteq> 6 then Inl (ValueError (GUID_must_be_6_bytes (length guid)))
      else compute_hmac (guid @ payload) key 16)"

definition validate_packet_hmac :: "bytes \<Rightarrow> bytes \<Rightarrow> bytes \<Rightarrow> bytes \<Rightarrow> error + bool" where
  "validate_packet_hmac guid payload key expected_hmac =
     (case compute_packet_hmac guid payload key of
        Inr computed_hmac \<Rightarrow> Inr (compare_digest computed_hmac expected_hmac)
      | Inl e \<Rightarrow> if except_ValueError_TypeError e then Inr False else Inl e)"

subsection \<open>packet.py\<close>

record Packet =
  hmac :: bytes
  guid :: bytes
  payload :: bytes

text \<open>
  \<^verbatim>\<open>Packet(hmac=..., guid=..., payload=...)\<close>: the generated constructor followed by
  \<^verbatim>\<open>__post_init__\<close>. The three \<^verbatim>\<open>isinstance(..., bytes)\<close> checks hold by the types
  of the arguments; the two length checks remain.
\<close>

definition Packet_init :: "bytes \<Rightarrow> bytes \<Rightarrow> bytes \<Rightarrow> error + Packet" where
  "Packet_init h g p =
     (if length h \<noteq> 16 then Inl (ValueError (hmac_must_be_16_bytes (length h)))
      else if length g \<noteq> 6 then Inl (ValueError (guid_must_be_6_bytes (length g)))
      else Inr \<lparr>hmac = h, guid = g, payload = p\<rparr>)"

definition to_bytes :: "Packet \<Rightarrow> bytes" where
  "to_bytes self = hmac self @ guid self @ payload self"

definition from_bytes :: "bytes \<Rightarrow> error + Packet option" where
  "from_bytes data =
     (if length data < 22 then Inr None
      else (case Packet_init (slice 0 16 data) (slice 16 22 data) (drop 22 data) of
              Inr packet \<Rightarrow> Inr (Some packet)
            | Inl e \<Rightarrow> if except_ValueError_TypeError e then Inr None else Inl e))"

definition Packet_len :: "Packet \<Rightarrow> nat" where
  "Packet_len self = 16 + 6 + length (payload self)"

text \<open>The two fixed widths of a packet: what the spec calls well-formed.\<close>

definition well_formed :: "Packet \<Rightarrow> bool" where
  "well_formed p = (length (hmac p) = 16 \<and> length (guid p) = 6)"

subsection \<open>packet_builder.py\<close>

definition build_packet :: "bytes \<Rightarrow> bytes \<Rightarrow> bytes \<Rightarrow> error + Packet" where
  "build_packet g p key =
     (let padded_guid = pad_guid g
      in case compute_packet_hmac padded_guid p key of
           Inl e \<Rightarrow> Inl e
         | Inr hmac_value \<Rightarrow> Packet_init hmac_value padded_guid p)"

definition build_and_serialize :: "bytes \<Rightarrow> bytes \<Rightarrow> bytes \<Rightarrow> error + bytes" where
  "build_and_serialize g p key =
     (case build_packet g p key of
        Inl e \<Rightarrow> Inl e
      | Inr packet \<Rightarrow> Inr (to_bytes packet))"

definition parse_packet :: "bytes \<Rightarrow> error + Packet option" where
  "parse_packet data = from_bytes data"

definition validate_hmac :: "Packet \<Rightarrow> bytes \<Rightarrow> error + bool" where
  "validate_hmac packet key =
     validate_packet_hmac (guid packet) (payload packet) key (hmac packet)"

definition parse_and_validate :: "bytes \<Rightarrow> bytes \<Rightarrow> error + Packet option" where
  "parse_and_validate data key =
     (case parse_packet data of
        Inl e \<Rightarrow> Inl e
      | Inr None \<Rightarrow> Inr None
      | Inr (Some packet) \<Rightarrow>
          (case validate_hmac packet key of
             Inl e \<Rightarrow> Inl e
           | Inr ok \<Rightarrow> if \<not> ok then Inr None else Inr (Some packet)))"

subsection \<open>Objects of class \<open>Packet\<close>\<close>

text \<open>
  \<^verbatim>\<open>__repr__\<close> of packet.py, with \<^verbatim>\<open>str\<close> of a length written out in decimal.
\<close>

function decimal :: "nat \<Rightarrow> string" where
  "decimal n =
     (if n < 10 then [''0123456789'' ! n]
      else decimal (n div 10) @ [''0123456789'' ! (n mod 10)])"
  by pat_completeness auto
termination
  by (relation "measure (\<lambda>n. n)") auto

declare decimal.simps [simp del]

definition Packet_repr :: "Packet \<Rightarrow> string" where
  "Packet_repr self =
     ''Packet(hmac='' @ take 8 (bytes_hex (hmac self)) @ ''..., guid='' @ bytes_hex (guid self)
       @ '', payload='' @ decimal (length (payload self)) @ ''B)''"

text \<open>
  A \<open>Packet\<close> is a Python object, and \<^verbatim>\<open>@dataclass\<close> is applied without
  \<^verbatim>\<open>frozen=True\<close> (packet.py, line 11): the class has no \<^verbatim>\<open>__setattr__\<close> guard, so
  \<^verbatim>\<open>p.hmac = v\<close> stores \<open>v\<close> in the field and does not run \<^verbatim>\<open>__post_init__\<close> again.
  What can be done to an existing packet is a step on the state of the object: the step
  returns the result of the call and the object after it. The calls are the methods
  \<^verbatim>\<open>to_bytes\<close>, \<^verbatim>\<open>__len__\<close> and \<^verbatim>\<open>__repr__\<close> and the function
  \<^verbatim>\<open>PacketBuilder.validate_hmac\<close>, whose bodies only read the fields; the assignments are
  those Python accepts on the three fields.
\<close>

datatype packet_op =
    Call_to_bytes
  | Call_len
  | Call_repr
  | Call_validate_hmac bytes
  | Assign_hmac bytes
  | Assign_guid bytes
  | Assign_payload bytes

datatype op_result =
    Returns_bytes bytes
  | Returns_int nat
  | Returns_str string
  | Returns_bool "error + bool"
  | Returns_nothing

fun do_op :: "packet_op \<Rightarrow> Packet \<Rightarrow> op_result \<times> Packet" where
  "do_op Call_to_bytes self = (Returns_bytes (to_bytes self), self)"
| "do_op Call_len self = (Returns_int (Packet_len self), self)"
| "do_op Call_repr self = (Returns_str (Packet_repr self), self)"
| "do_op (Call_validate_hmac key) self = (Returns_bool (validate_hmac self key), self)"
| "do_op (Assign_hmac v) self = (Returns_nothing, self\<lparr>hmac := v\<rparr>)"
| "do_op (Assign_guid v) self = (Returns_nothing, self\<lparr>guid := v\<rparr>)"
| "do_op (Assign_payload v) self = (Returns_nothing, self\<lparr>payload := v\<rparr>)"

subsection \<open>Vocabulary of the specification\<close>

text \<open>
  What the specification's sentences about the hexadecimal codec speak of, written from
  its words and independently of \<open>fromhex_loop\<close>: a hexadecimal character is one of the
  22 characters \<open>0-9\<close>, \<open>a-f\<close>, \<open>A-F\<close>; a string fails to decode when it contains a
  character that is not hexadecimal or when its length is odd; the fields of a string are
  its pieces between ASCII whitespace characters; the value of a hexadecimal character is
  its position among the sixteen digits; the bytes of a digit string are its successive
  pairs, the first digit of a pair being the high nibble.
\<close>

definition is_hexdigit :: "char \<Rightarrow> bool" where
  "is_hexdigit c = (c \<in> set ''0123456789abcdefABCDEF'')"

definition is_lower_hexdigit :: "char \<Rightarrow> bool" where
  "is_lower_hexdigit c = (c \<in> set ''0123456789abcdef'')"

definition decode_fails :: "string \<Rightarrow> bool" where
  "decode_fails s = (list_ex (\<lambda>c. \<not> is_hexdigit c) s \<or> odd (length s))"

fun fields :: "string \<Rightarrow> string list" where
  "fields [] = [[]]"
| "fields (c # cs) =
     (if Py_ISSPACE c then [] # fields cs
      else (case fields cs of [] \<Rightarrow> [[c]] | r # rs \<Rightarrow> (c # r) # rs))"

definition hex_value :: "char \<Rightarrow> nat" where
  "hex_value c =
     (if c \<in> set ''0123456789abcdef'' then length (takeWhile (\<lambda>x. x \<noteq> c) ''0123456789abcdef'')
      else length (takeWhile (\<lambda>x. x \<noteq> c) ''0123456789ABCDEF''))"

fun hex_pairs :: "string \<Rightarrow> bytes" where
  "hex_pairs (c # d # cs) = of_nat (16 * hex_value c + hex_value d) # hex_pairs cs"
| "hex_pairs _ = []"

section \<open>Properties\<close>

subsection \<open>Library facts\<close>

lemma length_state_bytes: "length (state_bytes s) = 32"
  by (induct s rule: state_bytes.induct) (simp add: be_bytes_def)

lemma length_sha256: "length (sha256 m) = 32"
  by (simp add: sha256_def length_state_bytes)

lemma length_hmac_sha256: "length (hmac_sha256 k m) = 32"
  by (simp add: hmac_sha256_def Let_def length_sha256)

text \<open>
  Two known answers tie the model of the library to the real functions: the SHA-256 digest
  of \<^verbatim>\<open>abc\<close> from FIPS 180-4, and the tag of the specification's concrete vector (key of
  32 zero bytes, identifier of six 1 bytes, payload \<^verbatim>\<open>test payload\<close>), as the \<open>cryptography\<close>
  library computes it.
\<close>

lemma sha256_abc:
  "sha256 [97, 98, 99] =
   [186, 120, 22, 191, 143, 1, 207, 234, 65, 65, 64, 222, 93, 174, 34, 35,
    176, 3, 97, 163, 150, 23, 122, 156, 180, 16, 255, 97, 242, 0, 21, 173]"
  by code_simp

lemma hmac_sha256_vector:
  "take 16 (hmac_sha256 (replicate 32 0)
     (replicate 6 1 @ [116, 101, 115, 116, 32, 112, 97, 121, 108, 111, 97, 100])) =
   [95, 24, 242, 157, 80, 32, 134, 126, 1, 146, 129, 93, 127, 144, 213, 170]"
  by code_simp

subsection \<open>Identifier padding\<close>

lemma length_pad_guid: "length (pad_guid b) = 6"
  by (simp add: pad_guid_def)

text \<open>
  C5: \<open>pad_guid b\<close> is \<open>b\<close> when \<open>b\<close> has 6 bytes, \<open>b\<close> followed by \<open>6 - len b\<close> zero
  bytes when it is shorter, and the first 6 bytes of \<open>b\<close> when it is longer; so the result
  always has exactly 6 bytes, and no length is rejected (the function returns bytes, not
  an error).
\<close>

theorem C5_pad_guid:
  "(length b = 6 \<longrightarrow> pad_guid b = b) \<and>
   (length b < 6 \<longrightarrow> pad_guid b = b @ replicate (6 - length b) 0) \<and>
   (6 < length b \<longrightarrow> pad_guid b = take 6 b) \<and>
   length (pad_guid b) = 6"
  by (simp add: pad_guid_def)

theorem C5_pad_guid_witness:
  "pad_guid [1, 2, 3, 4, 5, 6] = [1, 2, 3, 4, 5, 6] \<and>
   pad_guid [1, 2] = [1, 2, 0, 0, 0, 0] \<and>
   pad_guid [1, 2, 3, 4, 5, 6, 7, 8] = [1, 2, 3, 4, 5, 6]"
  using C5_pad_guid [of "[1, 2, 3, 4, 5, 6]"] C5_pad_guid [of "[1, 2]"]
    C5_pad_guid [of "[1, 2, 3, 4, 5, 6, 7, 8]"]
  by (simp add: numeral_eq_Suc)

subsection \<open>Constant-time comparison\<close>

lemma xor_zero_iff: "((x :: byte) XOR y = 0) = (x = y)"
  by (metis bit.xor_left_self xor.right_neutral)

lemma foldl_or_xor_zero:
  "(foldl (\<lambda>r (x, y). r OR (x XOR y)) (r0 :: byte) zs = 0) =
   (r0 = 0 \<and> (\<forall>(x, y) \<in> set zs. x = y))"
  by (induction zs arbitrary: r0) (auto simp: or_eq_0_iff xor_zero_iff)

lemma zip_all_eq: "length a = length b \<Longrightarrow> (\<forall>(x, y) \<in> set (zip a b). x = y) = (a = b)"
  by (induction a b rule: list_induct2) auto

lemma compare_digest_iff: "compare_digest a b = (a = b)"
proof (cases "length a = length b")
  case True
  then show ?thesis
    by (simp add: compare_digest_def foldl_or_xor_zero zip_all_eq)
next
  case False
  then have "a \<noteq> b" by auto
  with False show ?thesis
    by (simp add: compare_digest_def foldl_or_xor_zero)
qed

subsection \<open>The authentication primitive\<close>

lemma slice_to_nat: "slice_to (int n) xs = take n xs"
  by (simp add: slice_to_def)

lemma compute_hmac_16:
  "length key = 32 \<Longrightarrow> compute_hmac m key 16 = Inr (take 16 (hmac_sha256 key m))"
  by (simp add: compute_hmac_def slice_to_def)

text \<open>
  C7: \<open>compute_hmac\<close> raises the key-length \<open>ValueError\<close> when the key is not exactly 32
  bytes; with a 32-byte key it raises the truncation \<open>ValueError\<close> when the tag length
  exceeds 32; otherwise it returns the first \<open>n\<close> bytes of the full HMAC-SHA256 digest of
  the message under the key, which are \<open>n\<close> bytes. The tag length is a natural number
  \<open>n\<close> (the spec's \<open>u8\<close>). Being a function of its three arguments, two calls on the same
  inputs return the same bytes.
\<close>

theorem C7_compute_hmac:
  "(length key \<noteq> 32 \<longrightarrow>
      compute_hmac m key (int n) = Inl (ValueError (Key_must_be_32_bytes (length key)))) \<and>
   (length key = 32 \<and> 32 < n \<longrightarrow>
      compute_hmac m key (int n) = Inl (ValueError (Cannot_truncate (int n)))) \<and>
   (length key = 32 \<and> n \<le> 32 \<longrightarrow>
      compute_hmac m key (int n) = Inr (take n (hmac_sha256 key m)) \<and>
      length (take n (hmac_sha256 key m)) = n)"
  by (simp add: compute_hmac_def slice_to_nat length_hmac_sha256)

theorem C7_compute_hmac_witness:
  "compute_hmac [1, 2, 3] [7] (int 16) = Inl (ValueError (Key_must_be_32_bytes 1)) \<and>
   compute_hmac [1, 2, 3] (replicate 32 0) (int 33) = Inl (ValueError (Cannot_truncate 33)) \<and>
   compute_hmac [1, 2, 3] (replicate 32 0) (int 8) =
     Inr (take 8 (hmac_sha256 (replicate 32 0) [1, 2, 3])) \<and>
   length (take 8 (hmac_sha256 (replicate 32 0) [1, 2, 3])) = 8"
  using C7_compute_hmac [of "[7]" "[1, 2, 3]" 16]
    C7_compute_hmac [of "replicate 32 0" "[1, 2, 3]" 33]
    C7_compute_hmac [of "replicate 32 0" "[1, 2, 3]" 8]
  by simp

text \<open>
  C4: \<open>validate_hmac_constant_time\<close> and \<open>validate_packet_hmac\<close> return a boolean for
  every message, key, candidate tag and tag length: no exception leaves them. A key that
  is not 32 bytes long, a tag length above 32 and (for the packet form) an identifier that
  is not 6 bytes long all give \<open>False\<close>.
\<close>

theorem C4_validate_total:
  "(\<exists>b. validate_hmac_constant_time m key tag t = Inr b) \<and>
   (length key \<noteq> 32 \<longrightarrow> validate_hmac_constant_time m key tag t = Inr False) \<and>
   (32 < t \<longrightarrow> validate_hmac_constant_time m key tag t = Inr False) \<and>
   (\<exists>b. validate_packet_hmac g p key tag = Inr b) \<and>
   (length key \<noteq> 32 \<or> length g \<noteq> 6 \<longrightarrow> validate_packet_hmac g p key tag = Inr False)"
  by (auto simp: validate_hmac_constant_time_def validate_packet_hmac_def
      compute_packet_hmac_def compute_hmac_def)

theorem C4_validate_total_witness:
  "validate_hmac_constant_time [1] [2, 3] [4] 16 = Inr False \<and>
   validate_hmac_constant_time [1] (replicate 32 0) [4] 40 = Inr False \<and>
   validate_packet_hmac [1, 1] [5] (replicate 32 0) [4] = Inr False \<and>
   validate_packet_hmac [1, 1, 1, 1, 1, 1] [5] [9] [4] = Inr False"
  using C4_validate_total [of "[1]" "[2, 3]" "[4]" 16 "[1, 1]" "[5]"]
    C4_validate_total [of "[1]" "replicate 32 0" "[4]" 40 "[1, 1]" "[5]"]
    C4_validate_total [of "[1]" "[9]" "[4]" 16 "[1, 1, 1, 1, 1, 1]" "[5]"]
  by simp

subsection \<open>The packet record\<close>

lemma Packet_init_ok:
  "length h = 16 \<Longrightarrow> length g = 6 \<Longrightarrow> Packet_init h g p = Inr \<lparr>hmac = h, guid = g, payload = p\<rparr>"
  by (simp add: Packet_init_def)

lemma Packet_init_Inr:
  "Packet_init h g p = Inr pk \<Longrightarrow>
   pk = \<lparr>hmac = h, guid = g, payload = p\<rparr> \<and> length h = 16 \<and> length g = 6"
  by (auto simp: Packet_init_def split: if_splits)

lemma from_bytes_long:
  "22 \<le> length b \<Longrightarrow>
   from_bytes b = Inr (Some \<lparr>hmac = take 16 b, guid = take 6 (drop 16 b), payload = drop 22 b\<rparr>)"
  by (simp add: from_bytes_def slice_def Packet_init_def drop_take)

lemma from_bytes_short: "length b < 22 \<Longrightarrow> from_bytes b = Inr None"
  by (simp add: from_bytes_def)

text \<open>
  C3: \<open>from_bytes b\<close> returns \<open>None\<close> exactly when \<open>b\<close> has fewer than 22 bytes; for 22
  bytes or more it returns the packet whose hmac is bytes 0 to 16 of \<open>b\<close>, whose guid is
  bytes 16 to 22 and whose payload is the rest (possibly empty), and that packet is
  well-formed.
\<close>

theorem C3_from_bytes:
  "(from_bytes b = Inr None) = (length b < 22) \<and>
   (22 \<le> length b \<longrightarrow>
      from_bytes b =
        Inr (Some \<lparr>hmac = take 16 b, guid = take 6 (drop 16 b), payload = drop 22 b\<rparr>) \<and>
      well_formed \<lparr>hmac = take 16 b, guid = take 6 (drop 16 b), payload = drop 22 b\<rparr>)"
proof (cases "length b < 22")
  case True
  then show ?thesis by (simp add: from_bytes_short)
next
  case False
  then have "22 \<le> length b" by simp
  then show ?thesis by (simp add: from_bytes_long well_formed_def)
qed

theorem C3_from_bytes_witness:
  "from_bytes (replicate 16 1 @ replicate 6 2 @ [3, 4]) =
     Inr (Some \<lparr>hmac = replicate 16 1, guid = replicate 6 2, payload = [3, 4]\<rparr>) \<and>
   from_bytes (replicate 16 1 @ replicate 6 2) =
     Inr (Some \<lparr>hmac = replicate 16 1, guid = replicate 6 2, payload = []\<rparr>) \<and>
   from_bytes (replicate 21 0) = Inr None"
  using C3_from_bytes [of "replicate 16 1 @ replicate 6 2 @ [3, 4]"]
    C3_from_bytes [of "replicate 16 1 @ replicate 6 2"]
    C3_from_bytes [of "replicate 21 0"]
  by simp

text \<open>
  C10: for every \<open>b\<close> of at least 22 bytes, \<open>from_bytes b\<close> returns a packet and
  \<open>to_bytes\<close> of that packet is \<open>b\<close>; for every well-formed packet \<open>p\<close>,
  \<open>from_bytes (to_bytes p)\<close> returns \<open>p\<close>. Neither direction looks at the key.
\<close>

theorem C10_encode_decode:
  "(22 \<le> length b \<longrightarrow> (\<exists>q. from_bytes b = Inr (Some q) \<and> to_bytes q = b)) \<and>
   (well_formed p \<longrightarrow> from_bytes (to_bytes p) = Inr (Some p))"
proof -
  have "drop 22 b = drop 6 (drop 16 b)"
    by simp
  then have "take 6 (drop 16 b) @ drop 22 b = drop 16 b"
    by (simp only: append_take_drop_id)
  then have "take 16 b @ take 6 (drop 16 b) @ drop 22 b = b"
    by simp
  then have "22 \<le> length b \<longrightarrow> (\<exists>q. from_bytes b = Inr (Some q) \<and> to_bytes q = b)"
    by (simp add: from_bytes_long to_bytes_def)
  moreover have "well_formed p \<longrightarrow> from_bytes (to_bytes p) = Inr (Some p)"
    by (simp add: from_bytes_long to_bytes_def well_formed_def)
  ultimately show ?thesis by simp
qed

theorem C10_encode_decode_witness:
  "(\<exists>q. from_bytes (replicate 16 1 @ replicate 6 2 @ [3, 4]) = Inr (Some q) \<and>
        to_bytes q = replicate 16 1 @ replicate 6 2 @ [3, 4]) \<and>
   from_bytes (to_bytes \<lparr>hmac = replicate 16 7, guid = replicate 6 8, payload = [9]\<rparr>) =
     Inr (Some \<lparr>hmac = replicate 16 7, guid = replicate 6 8, payload = [9]\<rparr>)"
  using C10_encode_decode [of "replicate 16 1 @ replicate 6 2 @ [3, 4]"
      "\<lparr>hmac = replicate 16 7, guid = replicate 6 8, payload = [9]\<rparr>"]
  by (simp add: well_formed_def)

subsection \<open>The packet pipeline\<close>

lemma compute_packet_hmac_ok:
  "length key = 32 \<Longrightarrow> length g = 6 \<Longrightarrow>
   compute_packet_hmac g p key = Inr (take 16 (hmac_sha256 key (g @ p)))"
  by (simp add: compute_packet_hmac_def compute_hmac_16)

lemma build_packet_ok:
  "length key = 32 \<Longrightarrow>
   build_packet i p key =
     Inr \<lparr>hmac = take 16 (hmac_sha256 key (pad_guid i @ p)), guid = pad_guid i, payload = p\<rparr>"
  by (simp add: build_packet_def Let_def compute_packet_hmac_ok length_pad_guid Packet_init_ok
      length_hmac_sha256)

lemma from_bytes_to_bytes: "well_formed q \<Longrightarrow> from_bytes (to_bytes q) = Inr (Some q)"
  by (simp add: from_bytes_long to_bytes_def well_formed_def)

lemma from_bytes_well_formed: "from_bytes d = Inr (Some q) \<Longrightarrow> well_formed q"
  by (cases "length d < 22") (auto simp: from_bytes_short from_bytes_long well_formed_def)

lemma build_packet_well_formed: "build_packet i p key = Inr q \<Longrightarrow> well_formed q"
  by (auto simp: build_packet_def Let_def well_formed_def split: sum.splits dest: Packet_init_Inr)

lemma parse_and_validate_Some:
  "parse_and_validate d key = Inr (Some q) \<Longrightarrow> from_bytes d = Inr (Some q)"
  by (auto simp: parse_and_validate_def parse_packet_def split: sum.splits option.splits if_splits)

lemma parse_and_validate_built:
  assumes key: "length key = 32"
  shows "parse_and_validate
           (to_bytes \<lparr>hmac = take 16 (hmac_sha256 key (pad_guid i @ p)),
                      guid = pad_guid i, payload = p\<rparr>) key =
         Inr (Some \<lparr>hmac = take 16 (hmac_sha256 key (pad_guid i @ p)),
                    guid = pad_guid i, payload = p\<rparr>)"
proof -
  let ?q = "\<lparr>hmac = take 16 (hmac_sha256 key (pad_guid i @ p)), guid = pad_guid i, payload = p\<rparr>"
  have wf: "well_formed ?q"
    by (simp add: well_formed_def length_pad_guid length_hmac_sha256)
  then have parse: "parse_packet (to_bytes ?q) = Inr (Some ?q)"
    by (simp add: parse_packet_def from_bytes_to_bytes)
  from key have "validate_hmac ?q key = Inr True"
    by (simp add: validate_hmac_def validate_packet_hmac_def compute_packet_hmac_ok
        length_pad_guid compare_digest_iff)
  with parse show ?thesis
    by (simp add: parse_and_validate_def)
qed

text \<open>
  C2: with a 32-byte key, \<open>build_packet\<close> returns the packet whose guid is the padded
  identifier, whose payload is the payload unchanged, and whose hmac is the first 16 bytes
  of HMAC-SHA256 under the key of the padded identifier followed by the payload (the
  identifier as the caller gave it does not enter the MAC).
\<close>

theorem C2_build_packet:
  "length key = 32 \<Longrightarrow>
   build_packet i p key =
     Inr \<lparr>hmac = take 16 (hmac_sha256 key (pad_guid i @ p)), guid = pad_guid i, payload = p\<rparr>"
  by (rule build_packet_ok)

theorem C2_build_packet_witness:
  "length (replicate 32 (0 :: byte)) = 32 \<and>
   build_packet [1, 2] [9] (replicate 32 0) =
     Inr \<lparr>hmac = take 16 (hmac_sha256 (replicate 32 0) ([1, 2, 0, 0, 0, 0] @ [9])),
          guid = [1, 2, 0, 0, 0, 0], payload = [9]\<rparr>"
proof -
  have k: "length (replicate 32 (0 :: byte)) = 32" by simp
  have g: "pad_guid [1, 2] = [1, 2, 0, 0, 0, 0]" by (simp add: pad_guid_def numeral_eq_Suc)
  from C2_build_packet [OF k, of "[1, 2]" "[9]"] k g show ?thesis by simp
qed

text \<open>
  C1: for every identifier, payload and 32-byte key, \<open>build_and_serialize\<close> returns wire
  bytes, and \<open>parse_and_validate\<close> of those bytes under the same key returns the packet
  that was built: its guid is the padded identifier and its payload the original payload.
\<close>

theorem C1_round_trip:
  "length key = 32 \<Longrightarrow>
   \<exists>w. build_and_serialize i p key = Inr w \<and>
       parse_and_validate w key =
         Inr (Some \<lparr>hmac = take 16 (hmac_sha256 key (pad_guid i @ p)),
                    guid = pad_guid i, payload = p\<rparr>)"
  by (simp add: build_and_serialize_def build_packet_ok parse_and_validate_built)

theorem C1_round_trip_witness:
  "\<exists>w. build_and_serialize [1, 2] [9] (replicate 32 0) = Inr w \<and>
       parse_and_validate w (replicate 32 0) =
         Inr (Some \<lparr>hmac = take 16 (hmac_sha256 (replicate 32 0) ([1, 2, 0, 0, 0, 0] @ [9])),
                    guid = [1, 2, 0, 0, 0, 0], payload = [9]\<rparr>)"
proof -
  have k: "length (replicate 32 (0 :: byte)) = 32" by simp
  have g: "pad_guid [1, 2] = [1, 2, 0, 0, 0, 0]" by (simp add: pad_guid_def numeral_eq_Suc)
  from C1_round_trip [OF k, of "[1, 2]" "[9]"] g show ?thesis by simp
qed

text \<open>
  C8, as the specification states it, fails: a packet that the constructor has accepted
  can be assigned a 1-byte hmac, and the object is then a \<open>Packet\<close> whose hmac is not 16
  bytes long. The assignment changes the packet after its construction.
\<close>

theorem C8_counterexample:
  "Packet_init (replicate 16 0) (replicate 6 1) [] =
     Inr \<lparr>hmac = replicate 16 0, guid = replicate 6 1, payload = []\<rparr> \<and>
   snd (do_op (Assign_hmac [0]) \<lparr>hmac = replicate 16 0, guid = replicate 6 1, payload = []\<rparr>) =
     \<lparr>hmac = [0], guid = replicate 6 1, payload = []\<rparr> \<and>
   \<not> well_formed \<lparr>hmac = [0], guid = replicate 6 1, payload = []\<rparr>"
  by (simp add: Packet_init_def well_formed_def)

text \<open>
  C8, amended: a packet that the constructor, \<open>build_packet\<close>, \<open>from_bytes\<close> or
  \<open>parse_and_validate\<close> returns has an hmac of exactly 16 bytes and a guid of exactly 6
  bytes; the constructor raises \<open>ValueError\<close> for fields of any other length and succeeds
  otherwise. The calls \<open>to_bytes\<close>, \<open>__len__\<close>, \<open>__repr__\<close> and \<open>validate_hmac\<close> leave
  the packet they are given as it was. An assignment to a field replaces that field and
  nothing checks it: after it the packet is well-formed exactly when the new hmac has 16
  bytes (the new guid 6 bytes) and the other width was right; an assignment to the payload
  keeps well-formedness.
\<close>

theorem C8_packet_invariant:
  "(Packet_init h g p = Inr q \<longrightarrow> well_formed q \<and> q = \<lparr>hmac = h, guid = g, payload = p\<rparr>) \<and>
   (length h \<noteq> 16 \<or> length g \<noteq> 6 \<longrightarrow> (\<exists>m. Packet_init h g p = Inl (ValueError m))) \<and>
   (length h = 16 \<and> length g = 6 \<longrightarrow> (\<exists>q'. Packet_init h g p = Inr q')) \<and>
   (build_packet i pl key = Inr q1 \<longrightarrow> well_formed q1) \<and>
   (from_bytes d = Inr (Some q2) \<longrightarrow> well_formed q2) \<and>
   (parse_and_validate d key = Inr (Some q3) \<longrightarrow> well_formed q3) \<and>
   snd (do_op Call_to_bytes s) = s \<and> snd (do_op Call_len s) = s \<and>
   snd (do_op Call_repr s) = s \<and> snd (do_op (Call_validate_hmac k) s) = s \<and>
   snd (do_op (Assign_hmac v) s) = s\<lparr>hmac := v\<rparr> \<and>
   snd (do_op (Assign_guid v) s) = s\<lparr>guid := v\<rparr> \<and>
   snd (do_op (Assign_payload v) s) = s\<lparr>payload := v\<rparr> \<and>
   well_formed (s\<lparr>hmac := v\<rparr>) = (length v = 16 \<and> length (guid s) = 6) \<and>
   well_formed (s\<lparr>guid := v\<rparr>) = (length (hmac s) = 16 \<and> length v = 6) \<and>
   well_formed (s\<lparr>payload := v\<rparr>) = well_formed s"
proof -
  have "Packet_init h g p = Inr q \<longrightarrow> well_formed q \<and> q = \<lparr>hmac = h, guid = g, payload = p\<rparr>"
    by (auto simp: well_formed_def dest: Packet_init_Inr)
  moreover have "length h \<noteq> 16 \<or> length g \<noteq> 6 \<longrightarrow>
      (\<exists>m. Packet_init h g p = Inl (ValueError m))"
    by (auto simp: Packet_init_def)
  moreover have "length h = 16 \<and> length g = 6 \<longrightarrow> (\<exists>q'. Packet_init h g p = Inr q')"
    by (simp add: Packet_init_ok)
  moreover have "build_packet i pl key = Inr q1 \<longrightarrow> well_formed q1"
    using build_packet_well_formed by blast
  moreover have "from_bytes d = Inr (Some q2) \<longrightarrow> well_formed q2"
    using from_bytes_well_formed by blast
  moreover have "parse_and_validate d key = Inr (Some q3) \<longrightarrow> well_formed q3"
    using from_bytes_well_formed parse_and_validate_Some by blast
  moreover have "snd (do_op Call_to_bytes s) = s \<and> snd (do_op Call_len s) = s \<and>
      snd (do_op Call_repr s) = s \<and> snd (do_op (Call_validate_hmac k) s) = s \<and>
      snd (do_op (Assign_hmac v) s) = s\<lparr>hmac := v\<rparr> \<and>
      snd (do_op (Assign_guid v) s) = s\<lparr>guid := v\<rparr> \<and>
      snd (do_op (Assign_payload v) s) = s\<lparr>payload := v\<rparr>"
    by simp
  moreover have "well_formed (s\<lparr>hmac := v\<rparr>) = (length v = 16 \<and> length (guid s) = 6) \<and>
      well_formed (s\<lparr>guid := v\<rparr>) = (length (hmac s) = 16 \<and> length v = 6) \<and>
      well_formed (s\<lparr>payload := v\<rparr>) = well_formed s"
    by (simp add: well_formed_def)
  ultimately show ?thesis by blast
qed

theorem C8_packet_invariant_witness:
  "well_formed \<lparr>hmac = replicate 16 1, guid = replicate 6 2, payload = [3]\<rparr> \<and>
   (\<exists>m. Packet_init [1] (replicate 6 2) [3] = Inl (ValueError m)) \<and>
   (\<exists>q'. Packet_init (replicate 16 1) (replicate 6 2) [3] = Inr q') \<and>
   well_formed \<lparr>hmac = take 16 (hmac_sha256 (replicate 32 0) ([1, 2, 0, 0, 0, 0] @ [9])),
                guid = [1, 2, 0, 0, 0, 0], payload = [9]\<rparr> \<and>
   snd (do_op Call_to_bytes \<lparr>hmac = replicate 16 1, guid = replicate 6 2, payload = [3]\<rparr>) =
     \<lparr>hmac = replicate 16 1, guid = replicate 6 2, payload = [3]\<rparr> \<and>
   snd (do_op (Call_validate_hmac (replicate 32 0))
          \<lparr>hmac = replicate 16 1, guid = replicate 6 2, payload = [3]\<rparr>) =
     \<lparr>hmac = replicate 16 1, guid = replicate 6 2, payload = [3]\<rparr> \<and>
   \<not> well_formed (snd (do_op (Assign_guid [7])
          \<lparr>hmac = replicate 16 1, guid = replicate 6 2, payload = [3]\<rparr>))"
proof -
  let ?key = "replicate 32 (0 :: byte)"
  let ?q = "\<lparr>hmac = replicate 16 (1 :: byte), guid = replicate 6 2, payload = [3]\<rparr>"
  let ?b = "\<lparr>hmac = take 16 (hmac_sha256 ?key (pad_guid [1, 2] @ [9])),
              guid = pad_guid [1, 2], payload = [9]\<rparr>"
  have k: "length ?key = 32" by simp
  have g: "pad_guid [1, 2] = [1, 2, 0, 0, 0, 0]" by (simp add: pad_guid_def numeral_eq_Suc)
  have c: "Packet_init (replicate 16 1) (replicate 6 2) [3] = Inr ?q"
    by (simp add: Packet_init_ok)
  have b: "build_packet [1, 2] [9] ?key = Inr ?b"
    using k by (rule build_packet_ok)
  have v: "parse_and_validate (to_bytes ?b) ?key = Inr (Some ?b)"
    using k by (rule parse_and_validate_built)
  then have f: "from_bytes (to_bytes ?b) = Inr (Some ?b)"
    by (rule parse_and_validate_Some)
  have l: "length [1 :: byte] \<noteq> 16" by simp
  have w: "\<not> (length [7 :: byte] = 6)" by simp
  from C8_packet_invariant [of "replicate 16 1" "replicate 6 2" "[3]" ?q
      "[1, 2]" "[9]" ?key ?b "to_bytes ?b" ?b ?b ?q ?key "[7]"]
    C8_packet_invariant [of "[1]" "replicate 6 2" "[3]" ?q
      "[1, 2]" "[9]" ?key ?b "to_bytes ?b" ?b ?b ?q ?key "[7]"]
    c b v f l g w
  show ?thesis by simp
qed

subsection \<open>The hexadecimal codec\<close>

lemma hexdigit_digit_value: "is_hexdigit c = (digit_value c < 16)"
proof -
  have "\<forall>c. is_hexdigit c = (digit_value c < 16)" by code_simp
  then show ?thesis by simp
qed

lemma hexdigit_value: "is_hexdigit c \<Longrightarrow> digit_value c = hex_value c"
proof -
  have "\<forall>c. is_hexdigit c \<longrightarrow> digit_value c = hex_value c" by code_simp
  then show "is_hexdigit c \<Longrightarrow> digit_value c = hex_value c" by simp
qed

lemma space_not_hexdigit: "Py_ISSPACE c \<Longrightarrow> \<not> is_hexdigit c"
proof -
  have "\<forall>c. Py_ISSPACE c \<longrightarrow> \<not> is_hexdigit c" by code_simp
  then show "Py_ISSPACE c \<Longrightarrow> \<not> is_hexdigit c" by simp
qed

lemma not_ascii_neither: "\<not> is_ascii c \<Longrightarrow> \<not> is_hexdigit c \<and> \<not> Py_ISSPACE c"
proof -
  have "\<forall>c. \<not> is_ascii c \<longrightarrow> \<not> is_hexdigit c \<and> \<not> Py_ISSPACE c" by code_simp
  then show "\<not> is_ascii c \<Longrightarrow> \<not> is_hexdigit c \<and> \<not> Py_ISSPACE c" by simp
qed

lemma fields_nonempty: "fields s \<noteq> []"
  by (induction s) (auto split: list.splits)

lemma decode_fails_Nil [simp]: "\<not> decode_fails []"
  by (simp add: decode_fails_def)

lemma decode_fails_Cons2:
  "decode_fails (c # d # r) = (\<not> is_hexdigit c \<or> \<not> is_hexdigit d \<or> decode_fails r)"
  by (auto simp: decode_fails_def)

lemma fromhex_loop_ok:
  "\<not> list_ex decode_fails (fields s) \<Longrightarrow>
   fromhex_loop i s = Inr (hex_pairs (filter (\<lambda>c. \<not> Py_ISSPACE c) s))"
proof (induction i s rule: fromhex_loop.induct)
  case (1 i)
  then show ?case by simp
next
  case (2 i c cs)
  show ?case
  proof (cases "Py_ISSPACE c")
    case True
    with 2 show ?thesis by simp
  next
    case False
    obtain r rs where frs: "fields cs = r # rs"
      using fields_nonempty [of cs] by (cases "fields cs") auto
    with False 2(3) have ok: "\<not> decode_fails (c # r)" "\<not> list_ex decode_fails rs"
      by simp_all
    show ?thesis
    proof (cases cs)
      case Nil
      with frs ok show ?thesis by (simp add: decode_fails_def)
    next
      case (Cons d ds)
      show ?thesis
      proof (cases "Py_ISSPACE d")
        case True
        with Cons frs ok show ?thesis by (auto simp: decode_fails_def)
      next
        case dns: False
        obtain r' rs' where frs': "fields ds = r' # rs'"
          using fields_nonempty [of ds] by (cases "fields ds") auto
        with dns Cons frs have r: "r = d # r'" "rs = rs'"
          by simp_all
        with ok have hc: "is_hexdigit c" and hd: "is_hexdigit d" and ok': "\<not> decode_fails r'"
          by (simp_all add: decode_fails_Cons2)
        from ok' ok(2) r frs' have "\<not> list_ex decode_fails (fields ds)"
          by simp
        with 2(2) [OF False _ Cons] hc hd
        have "fromhex_loop (i + 2) ds = Inr (hex_pairs (filter (\<lambda>c. \<not> Py_ISSPACE c) ds))"
          by (simp add: hexdigit_digit_value)
        moreover from hc hd have "digit_value c < 16" "digit_value d < 16"
          by (simp_all add: hexdigit_digit_value)
        moreover from hc hd have "digit_value c = hex_value c" "digit_value d = hex_value d"
          by (simp_all add: hexdigit_value)
        ultimately show ?thesis
          using False dns Cons by simp
      qed
    qed
  qed
qed

lemma fromhex_loop_fails:
  "list_ex decode_fails (fields s) \<Longrightarrow> \<exists>m. fromhex_loop i s = Inl (ValueError m)"
proof (induction i s rule: fromhex_loop.induct)
  case (1 i)
  then show ?case by simp
next
  case (2 i c cs)
  show ?case
  proof (cases "Py_ISSPACE c")
    case True
    with 2 show ?thesis by simp
  next
    case False
    obtain r rs where frs: "fields cs = r # rs"
      using fields_nonempty [of cs] by (cases "fields cs") auto
    with False 2(3) have bad: "decode_fails (c # r) \<or> list_ex decode_fails rs"
      by simp
    show ?thesis
    proof (cases "is_hexdigit c")
      case hc: False
      with False show ?thesis by (simp add: hexdigit_digit_value)
    next
      case hc: True
      show ?thesis
      proof (cases cs)
        case Nil
        with False hc show ?thesis by (simp add: hexdigit_digit_value)
      next
        case (Cons d ds)
        show ?thesis
        proof (cases "is_hexdigit d")
          case hd: False
          with False hc Cons show ?thesis by (simp add: hexdigit_digit_value)
        next
          case hd: True
          then have dns: "\<not> Py_ISSPACE d" using space_not_hexdigit by blast
          obtain r' rs' where frs': "fields ds = r' # rs'"
            using fields_nonempty [of ds] by (cases "fields ds") auto
          with dns Cons frs have r: "r = d # r'" "rs = rs'"
            by simp_all
          with bad hc hd frs' have "list_ex decode_fails (fields ds)"
            by (simp add: decode_fails_Cons2)
          with 2(2) [OF False _ Cons] hc hd
          obtain m where "fromhex_loop (i + 2) ds = Inl (ValueError m)"
            by (auto simp: hexdigit_digit_value)
          with False hc hd Cons show ?thesis
            by (simp add: hexdigit_digit_value)
        qed
      qed
    qed
  qed
qed

lemma concat_fields: "concat (fields s) = filter (\<lambda>c. \<not> Py_ISSPACE c) s"
proof (induction s)
  case Nil
  then show ?case by simp
next
  case (Cons c cs)
  obtain r rs where "fields cs = r # rs"
    using fields_nonempty [of cs] by (cases "fields cs") auto
  with Cons show ?case by simp
qed

lemma fields_no_space: "\<not> list_ex Py_ISSPACE s \<Longrightarrow> fields s = [s]"
  by (induction s) simp_all

lemma non_ascii_fails:
  assumes "\<not> list_all is_ascii s"
  shows "list_ex decode_fails (fields s)"
proof -
  from assms obtain c where c: "c \<in> set s" "\<not> is_ascii c"
    by (auto simp: list_all_iff)
  then have "\<not> is_hexdigit c" "\<not> Py_ISSPACE c"
    using not_ascii_neither by blast+
  with c have "c \<in> set (concat (fields s))"
    by (simp add: concat_fields)
  then obtain r where "r \<in> set (fields s)" "c \<in> set r"
    by auto
  with \<open>\<not> is_hexdigit c\<close> show ?thesis
    by (auto simp: list_ex_iff decode_fails_def)
qed

lemma ascii_of_ok:
  "\<not> list_ex decode_fails (fields s) \<Longrightarrow> list_all is_ascii s"
  using non_ascii_fails by blast

lemma bytes_fromhex_ok:
  "\<not> list_ex decode_fails (fields s) \<Longrightarrow>
   bytes_fromhex s = Inr (hex_pairs (filter (\<lambda>c. \<not> Py_ISSPACE c) s))"
  by (simp add: bytes_fromhex_def ascii_of_ok fromhex_loop_ok)

lemma bytes_fromhex_fails:
  "list_ex decode_fails (fields s) \<Longrightarrow> \<exists>m. bytes_fromhex s = Inl (ValueError m)"
  by (simp add: bytes_fromhex_def fromhex_loop_fails)

lemma from_hex_ok:
  "\<not> list_ex decode_fails (fields s) \<Longrightarrow>
   from_hex s = Inr (pad_guid (hex_pairs (filter (\<lambda>c. \<not> Py_ISSPACE c) s)))"
  by (simp add: from_hex_def bytes_fromhex_ok)

lemma from_hex_fails:
  "list_ex decode_fails (fields s) \<Longrightarrow> \<exists>m. from_hex s = Inl (ValueError m)"
  using bytes_fromhex_fails [of s] by (auto simp: from_hex_def)

text \<open>
  C6, as the specification states it, fails: \<open>decode_fails s\<close> is "\<open>s\<close> contains a
  non-hex character or has odd length". The string \<^verbatim>\<open>01 02\<close> contains a space and has
  length 5, and \<open>from_hex\<close> decodes it, because \<^verbatim>\<open>bytes.fromhex\<close> skips ASCII
  whitespace between pairs of digits.
\<close>

theorem C6_counterexample:
  "decode_fails ''01 02'' \<and> from_hex ''01 02'' = Inr [1, 2, 0, 0, 0, 0]"
  by code_simp

text \<open>
  C6, amended: \<open>from_hex s\<close> raises (a \<open>ValueError\<close>) exactly when one of the fields of
  \<open>s\<close> between ASCII whitespace characters contains a non-hex character or has odd
  length; for a string without ASCII whitespace that is exactly when \<open>s\<close> contains a
  non-hex character or has odd length. When it succeeds it returns \<open>pad_guid\<close> of the
  bytes of the digits of \<open>s\<close>. The empty string gives 6 zero bytes.
\<close>

theorem C6_from_hex:
  "((\<exists>m. from_hex s = Inl (ValueError m)) = list_ex decode_fails (fields s)) \<and>
   ((\<exists>e. from_hex s = Inl e) = list_ex decode_fails (fields s)) \<and>
   (\<not> list_ex Py_ISSPACE s \<longrightarrow> (\<exists>e. from_hex s = Inl e) = decode_fails s) \<and>
   (\<not> list_ex decode_fails (fields s) \<longrightarrow>
      from_hex s = Inr (pad_guid (hex_pairs (filter (\<lambda>c. \<not> Py_ISSPACE c) s)))) \<and>
   from_hex [] = Inr (replicate 6 0)"
proof -
  have a: "(\<exists>e. from_hex s = Inl e) = list_ex decode_fails (fields s)"
  proof (cases "list_ex decode_fails (fields s)")
    case True
    then show ?thesis using from_hex_fails [of s] by auto
  next
    case False
    then show ?thesis using from_hex_ok [of s] by simp
  qed
  have b: "(\<exists>m. from_hex s = Inl (ValueError m)) = list_ex decode_fails (fields s)"
  proof (cases "list_ex decode_fails (fields s)")
    case True
    then show ?thesis using from_hex_fails [of s] by simp
  next
    case False
    then show ?thesis using from_hex_ok [of s] by simp
  qed
  have c: "\<not> list_ex Py_ISSPACE s \<longrightarrow> (\<exists>e. from_hex s = Inl e) = decode_fails s"
    using a by (simp add: fields_no_space)
  have d: "from_hex [] = Inr (replicate 6 0)"
    using from_hex_ok [of "[]"] by (simp add: pad_guid_def)
  from a b c d from_hex_ok [of s] show ?thesis by blast
qed

theorem C6_from_hex_witness:
  "from_hex ''0a 0B'' = Inr [10, 11, 0, 0, 0, 0] \<and>
   (\<exists>e. from_hex ''0a0'' = Inl e) \<and> (\<exists>e. from_hex ''0g'' = Inl e) \<and>
   (\<exists>e. from_hex ''0 a'' = Inl e)"
proof -
  have 1: "\<not> list_ex decode_fails (fields ''0a 0B'')" by code_simp
  have 2: "pad_guid (hex_pairs (filter (\<lambda>c. \<not> Py_ISSPACE c) ''0a 0B'')) = [10, 11, 0, 0, 0, 0]"
    by code_simp
  have 3: "\<not> list_ex Py_ISSPACE ''0a0''" "decode_fails ''0a0''" by code_simp+
  have 4: "\<not> list_ex Py_ISSPACE ''0g''" "decode_fails ''0g''" by code_simp+
  have 5: "list_ex decode_fails (fields ''0 a'')" by code_simp
  show ?thesis
    using C6_from_hex [of "''0a 0B''"] C6_from_hex [of "''0a0''"] C6_from_hex [of "''0g''"]
      C6_from_hex [of "''0 a''"] 1 2 3 4 5
    by simp
qed

lemma lower_is_hexdigit: "is_lower_hexdigit c \<Longrightarrow> is_hexdigit c"
  by (auto simp: is_lower_hexdigit_def is_hexdigit_def)

lemma lower_hex_value:
  "is_lower_hexdigit c \<Longrightarrow> hex_value c < 16 \<and> hexdigit (hex_value c) = c"
proof -
  have "\<forall>c. is_lower_hexdigit c \<longrightarrow> hex_value c < 16 \<and> hexdigit (hex_value c) = c"
    by code_simp
  then show "is_lower_hexdigit c \<Longrightarrow> hex_value c < 16 \<and> hexdigit (hex_value c) = c"
    by simp
qed

lemma hexdigit_lower: "n < 16 \<Longrightarrow> is_lower_hexdigit (hexdigit n)"
  unfolding is_lower_hexdigit_def hexdigit_def by (rule nth_mem) simp


lemma length_hex_pairs: "length (hex_pairs s) = length s div 2"
  by (induction s rule: hex_pairs.induct) simp_all

lemma unat_pair:
  assumes "a < 16" "b < 16"
  shows "unat (of_nat (16 * a + b) :: byte) = 16 * a + b"
proof -
  have "unat (of_nat (16 * a + b) :: byte) = (16 * a + b) mod 2 ^ LENGTH(8)"
    by (rule unat_of_nat)
  also from assms have "\<dots> = 16 * a + b"
    by simp
  finally show ?thesis .
qed

lemma bytes_hex_pairs:
  "list_all is_lower_hexdigit s \<Longrightarrow> even (length s) \<Longrightarrow> bytes_hex (hex_pairs s) = s"
proof (induction s rule: hex_pairs.induct)
  case (1 c d cs)
  then have c: "hex_value c < 16" "hexdigit (hex_value c) = c"
    and d: "hex_value d < 16" "hexdigit (hex_value d) = d"
    using lower_hex_value by simp_all
  from 1 have "bytes_hex (hex_pairs cs) = cs" by simp
  moreover have "unat (of_nat (16 * hex_value c + hex_value d) :: byte)
      = 16 * hex_value c + hex_value d"
    using c(1) d(1) by (rule unat_pair)
  ultimately show ?case
    using c d by (simp add: bytes_hex_def)
qed (simp_all add: bytes_hex_def)

lemma length_bytes_hex: "length (bytes_hex bs) = 2 * length bs"
  by (induction bs) (simp_all add: bytes_hex_def)

lemma byte_div_16: "unat (b :: byte) div 16 < 16"
proof -
  have "unat b < 2 ^ LENGTH(8)" by (rule unsigned_less)
  then show ?thesis by simp
qed

lemma bytes_hex_lower: "list_all is_lower_hexdigit (bytes_hex bs)"
  by (induction bs) (simp_all add: bytes_hex_def hexdigit_lower byte_div_16)

lemma lower_no_space: "list_all is_lower_hexdigit s \<Longrightarrow> \<not> list_ex Py_ISSPACE s"
  using space_not_hexdigit lower_is_hexdigit by (auto simp: list_all_iff list_ex_iff)

lemma lower_even_ok:
  "list_all is_lower_hexdigit s \<Longrightarrow> even (length s) \<Longrightarrow> \<not> decode_fails s"
  using lower_is_hexdigit by (auto simp: decode_fails_def list_all_iff list_ex_iff)

lemma filter_no_space: "\<not> list_ex Py_ISSPACE s \<Longrightarrow> filter (\<lambda>c. \<not> Py_ISSPACE c) s = s"
  by (induction s) simp_all

text \<open>
  C9: for every string \<open>s\<close> of exactly 12 lower-case hexadecimal characters,
  \<open>from_hex s\<close> returns an identifier \<open>g\<close> of 6 bytes with \<open>to_hex g = s\<close>; and for
  every 6-byte identifier \<open>b\<close>, \<open>to_hex b\<close> has exactly 12 characters, all lower-case
  hexadecimal.
\<close>

theorem C9_hex_round_trip:
  "(length s = 12 \<and> list_all is_lower_hexdigit s \<longrightarrow>
      (\<exists>g. from_hex s = Inr g \<and> length g = 6 \<and> to_hex g = s)) \<and>
   (length b = 6 \<longrightarrow> length (to_hex b) = 12 \<and> list_all is_lower_hexdigit (to_hex b))"
proof -
  have "\<exists>g. from_hex s = Inr g \<and> length g = 6 \<and> to_hex g = s"
    if len: "length s = 12" and low: "list_all is_lower_hexdigit s"
  proof -
    from len have ev: "even (length s)" by simp
    from low have ns: "\<not> list_ex Py_ISSPACE s" by (rule lower_no_space)
    from low ev have "\<not> decode_fails s" by (rule lower_even_ok)
    with ns have "\<not> list_ex decode_fails (fields s)" by (simp add: fields_no_space)
    then have "from_hex s = Inr (pad_guid (hex_pairs (filter (\<lambda>c. \<not> Py_ISSPACE c) s)))"
      by (rule from_hex_ok)
    with ns have fh: "from_hex s = Inr (pad_guid (hex_pairs s))"
      by (simp add: filter_no_space)
    from len have "length (hex_pairs s) = 6" by (simp add: length_hex_pairs)
    then have "pad_guid (hex_pairs s) = hex_pairs s" by (simp add: pad_guid_def)
    with fh low ev \<open>length (hex_pairs s) = 6\<close> show ?thesis
      by (simp add: to_hex_def bytes_hex_pairs)
  qed
  then show ?thesis
    by (simp add: to_hex_def length_bytes_hex bytes_hex_lower)
qed

theorem C9_hex_round_trip_witness:
  "(\<exists>g. from_hex ''0a1b2c3d4e5f'' = Inr g \<and> length g = 6 \<and> to_hex g = ''0a1b2c3d4e5f'') \<and>
   length (to_hex [1, 2, 3, 171, 205, 239]) = 12 \<and>
   list_all is_lower_hexdigit (to_hex [1, 2, 3, 171, 205, 239])"
proof -
  have 1: "length ''0a1b2c3d4e5f'' = 12 \<and> list_all is_lower_hexdigit ''0a1b2c3d4e5f''"
    by code_simp
  have 2: "length [1, 2, 3, 171, 205, 239 :: byte] = 6" by simp
  from C9_hex_round_trip [of "''0a1b2c3d4e5f''" "[1, 2, 3, 171, 205, 239]"] 1 2
  show ?thesis by blast
qed

end
